theory Spec2Isabelle
  imports Main
begin

section \<open>JavaScript values and the operations the connectors apply to them\<close>

text \<open>
  A response body is whatever \<^verbatim>\<open>response.getBody()\<close> hands back: parsed JSON, or the
  raw string. An object is kept as the list of its own enumerable properties, in the
  order in which JavaScript enumerates them, each key once. Numbers are only ever tested
  for truthiness here; the integer stands for the number, zero being the falsy one.
\<close>

datatype jsval =
    JUndefined
  | JNull
  | JBool bool
  | JNum int
  | JStr string
  | JArr "jsval list"
  | JObj "(string \<times> jsval) list"

text \<open>
  What a promise is rejected with: a \<^verbatim>\<open>TypeError\<close> raised by a property read on
  \<^verbatim>\<open>null\<close> or \<^verbatim>\<open>undefined\<close>, whatever the HTTP client rejected with
  (or \<^verbatim>\<open>getBody\<close> threw), or whatever a call to the document store threw,
  the last two kept as opaque descriptions.
\<close>

datatype error = TypeError | RequestFailed string | MongoError string

datatype 'a settle = Pending | Resolved 'a | Rejected error

fun truthy :: "jsval \<Rightarrow> bool" where
  "truthy JUndefined = False"
| "truthy JNull = False"
| "truthy (JBool b) = b"
| "truthy (JNum n) = (n \<noteq> 0)"
| "truthy (JStr s) = (s \<noteq> [])"
| "truthy (JArr xs) = True"
| "truthy (JObj kvs) = True"

text \<open>
  \<^verbatim>\<open>v[name]\<close> for a property name that is neither an array index nor
  \<^verbatim>\<open>length\<close> nor inherited (the connector reads \<^verbatim>\<open>_links\<close>,
  \<^verbatim>\<open>next\<close> and \<^verbatim>\<open>href\<close>): a \<^verbatim>\<open>TypeError\<close> on
  \<^verbatim>\<open>null\<close> and \<^verbatim>\<open>undefined\<close>, the property of an object,
  \<^verbatim>\<open>undefined\<close> on everything else.
\<close>

fun get_prop :: "jsval \<Rightarrow> string \<Rightarrow> error + jsval" where
  "get_prop JUndefined name = Inl TypeError"
| "get_prop JNull name = Inl TypeError"
| "get_prop (JObj kvs) name =
     Inr (case map_of kvs name of None \<Rightarrow> JUndefined | Some v \<Rightarrow> v)"
| "get_prop v name = Inr JUndefined"

text \<open>\<^verbatim>\<open>v[0]\<close>: the first element of an array, the first character of a string,
  the property \<^verbatim>\<open>"0"\<close> of an object.\<close>

fun get_index0 :: "jsval \<Rightarrow> error + jsval" where
  "get_index0 JUndefined = Inl TypeError"
| "get_index0 JNull = Inl TypeError"
| "get_index0 (JArr xs) = Inr (case xs of [] \<Rightarrow> JUndefined | x # rest \<Rightarrow> x)"
| "get_index0 (JStr s) = Inr (case s of [] \<Rightarrow> JUndefined | c # rest \<Rightarrow> JStr [c])"
| "get_index0 (JObj kvs) =
     Inr (case map_of kvs ''0'' of None \<Rightarrow> JUndefined | Some v \<Rightarrow> v)"
| "get_index0 v = Inr JUndefined"

text \<open>lodash's \<^verbatim>\<open>_.values\<close>: the elements of an array, the property values of an
  object, the characters of a string, nothing for any other value.\<close>

fun lodash_values :: "jsval \<Rightarrow> jsval list" where
  "lodash_values (JArr xs) = xs"
| "lodash_values (JObj kvs) = map snd kvs"
| "lodash_values (JStr s) = map (\<lambda>c. JStr [c]) s"
| "lodash_values v = []"

text \<open>\<^verbatim>\<open>Array.prototype.concat\<close> with one argument: an array argument is spread,
  any other value is appended as one element. The receiver is not changed; the merged
  array is the return value.\<close>

fun array_concat :: "jsval list \<Rightarrow> jsval \<Rightarrow> jsval list" where
  "array_concat xs (JArr ys) = xs @ ys"
| "array_concat xs v = xs @ [v]"

section \<open>The HTTP client\<close>

datatype http_verb = GET

record request =
  verb :: http_verb
  target :: jsval
  redirect :: bool
  timeout :: nat

text \<open>\<^verbatim>\<open>requestify.get(url, {redirect: true, timeout: 120000})\<close>, the call both
  connectors make.\<close>

definition requestify_get :: "jsval \<Rightarrow> request" where
  "requestify_get url = \<lparr>verb = GET, target = url, redirect = True, timeout = 120000\<rparr>"

text \<open>
  The upstream server as seen through the client: the answer to the \<open>k\<close>-th request of
  a run. \<open>Inl\<close> is a rejected request (or a body that \<^verbatim>\<open>getBody\<close> fails to
  read), \<open>Inr\<close> the body of the response.
\<close>

type_synonym upstream = "nat \<Rightarrow> request \<Rightarrow> error + jsval"

text \<open>
  What is observed of one call and of everything it sets off: the promise handed to the
  caller, the promise of the last invocation of the chain, the accumulator state left
  behind, the requests issued in order, and whether the chain of invocations came to an
  end within the allotted number of invocations.
\<close>

record 's run =
  promise :: "jsval settle"
  last_promise :: "jsval settle"
  state :: 's
  requests :: "request list"
  finished :: bool

section \<open>The link-following connector\<close>

record connector =
  results :: "jsval list"

text \<open>The constructor: \<^verbatim>\<open>this.results = []\<close>.\<close>

definition new_connector :: connector where
  "new_connector = \<lparr>results = []\<rparr>"

text \<open>\<^verbatim>\<open>r["_links"] && r["_links"]["next"]\<close>, as a truth value.\<close>

definition has_next :: "jsval \<Rightarrow> error + bool" where
  "has_next r =
     (case get_prop r ''_links'' of
        Inl e \<Rightarrow> Inl e
      | Inr links \<Rightarrow>
          if truthy links then
            (case get_prop links ''next'' of
               Inl e \<Rightarrow> Inl e
             | Inr nxt \<Rightarrow> Inr (truthy nxt))
          else Inr False)"

text \<open>\<^verbatim>\<open>r["_links"]["next"][0]["href"]\<close>.\<close>

definition next_href :: "jsval \<Rightarrow> error + jsval" where
  "next_href r =
     (case get_prop r ''_links'' of
        Inl e \<Rightarrow> Inl e
      | Inr links \<Rightarrow>
          (case get_prop links ''next'' of
             Inl e \<Rightarrow> Inl e
           | Inr nxt \<Rightarrow>
               (case get_index0 nxt of
                  Inl e \<Rightarrow> Inl e
                | Inr first \<Rightarrow> get_prop first ''href'')))"

text \<open>
  \<^verbatim>\<open>loop(url)\<close>. The first argument bounds the number of invocations that are
  followed; the third is the number of requests issued before this one. The invocation
  that finds a next link starts the next invocation without returning its promise, so
  its own promise is fulfilled with \<^verbatim>\<open>undefined\<close> whatever happens later.
\<close>

fun loop :: "nat \<Rightarrow> upstream \<Rightarrow> nat \<Rightarrow> jsval \<Rightarrow> connector \<Rightarrow> connector run" where
  "loop 0 get k url self =
     \<lparr>promise = Pending, last_promise = Pending, state = self, requests = [],
      finished = False\<rparr>"
| "loop (Suc n) get k url self =
     (case get k (requestify_get url) of
        Inl e \<Rightarrow>
          \<lparr>promise = Rejected e, last_promise = Rejected e, state = self,
           requests = [requestify_get url], finished = True\<rparr>
      | Inr r \<Rightarrow>
          (let self1 = self\<lparr>results := results self @ lodash_values r\<rparr> in
           case has_next r of
             Inl e \<Rightarrow>
               \<lparr>promise = Rejected e, last_promise = Rejected e, state = self1,
                requests = [requestify_get url], finished = True\<rparr>
           | Inr False \<Rightarrow>
               \<lparr>promise = Resolved (JArr (results self1)),
                last_promise = Resolved (JArr (results self1)), state = self1,
                requests = [requestify_get url], finished = True\<rparr>
           | Inr True \<Rightarrow>
               (case next_href r of
                  Inl e \<Rightarrow>
                    \<lparr>promise = Rejected e, last_promise = Rejected e, state = self1,
                     requests = [requestify_get url], finished = True\<rparr>
                | Inr href \<Rightarrow>
                    (let inner = loop n get (Suc k) href self1 in
                     \<lparr>promise = Resolved JUndefined, last_promise = last_promise inner,
                      state = state inner,
                      requests = requestify_get url # requests inner,
                      finished = finished inner\<rparr>))))"

text \<open>The address \<^verbatim>\<open>getPages\<close> starts from.\<close>

definition seed_url :: string where
  "seed_url = ''http://zuidas.publikaan.nl/wp-json/wp/v2/all?page=0''"

text \<open>
  \<^verbatim>\<open>getPages(correlationId)\<close>: the executor starts \<^verbatim>\<open>loop\<close> at the seed
  address and calls neither \<^verbatim>\<open>resolve\<close> nor \<^verbatim>\<open>reject\<close>.
\<close>

definition getPages :: "nat \<Rightarrow> upstream \<Rightarrow> nat \<Rightarrow> string \<Rightarrow> connector \<Rightarrow> connector run" where
  "getPages n get k correlationId self =
     (loop n get k (JStr seed_url) self)\<lparr>promise := Pending\<rparr>"

section \<open>The page-number connector\<close>

record config =
  wordpressUrl :: string
  wordpressApiPath :: string

text \<open>The two module-level variables.\<close>

record module_state =
  concatenatedResponse :: "jsval list"
  items :: jsval

definition initial_module :: module_state where
  "initial_module = \<lparr>concatenatedResponse = [], items = JUndefined\<rparr>"

fun digits :: "nat \<Rightarrow> string" where
  "digits n =
     (if n < 10 then [''0123456789'' ! n]
      else digits (n div 10) @ [''0123456789'' ! (n mod 10)])"

text \<open>A page number as string concatenation prints it.\<close>

definition number_to_string :: "int \<Rightarrow> string" where
  "number_to_string i = (if i < 0 then ''-'' @ digits (nat (- i)) else digits (nat i))"

definition page_url :: "config \<Rightarrow> int \<Rightarrow> string" where
  "page_url cfg page =
     wordpressUrl cfg @ ''/'' @ wordpressApiPath cfg @ ''?page='' @ number_to_string page"

text \<open>
  \<^verbatim>\<open>getPages(page, correlationId)\<close> of the page-number connector. A body that is
  \<^verbatim>\<open>null\<close> resolves the promise of the invocation that fetched it with the
  module-level array. Any other body is stored in \<^verbatim>\<open>items\<close>, merged with the
  array by \<^verbatim>\<open>concat\<close> (the merged array is not kept), and the next page is
  requested by a new invocation whose promise is dropped.
\<close>

fun getPages_paged ::
  "nat \<Rightarrow> config \<Rightarrow> upstream \<Rightarrow> nat \<Rightarrow> int \<Rightarrow> string \<Rightarrow> module_state \<Rightarrow> module_state run" where
  "getPages_paged 0 cfg get k page correlationId m =
     \<lparr>promise = Pending, last_promise = Pending, state = m, requests = [],
      finished = False\<rparr>"
| "getPages_paged (Suc n) cfg get k page correlationId m =
     (case get k (requestify_get (JStr (page_url cfg page))) of
        Inl e \<Rightarrow>
          \<lparr>promise = Rejected e, last_promise = Rejected e, state = m,
           requests = [requestify_get (JStr (page_url cfg page))], finished = True\<rparr>
      | Inr body \<Rightarrow>
          if body = JNull then
            \<lparr>promise = Resolved (JArr (concatenatedResponse m)),
             last_promise = Resolved (JArr (concatenatedResponse m)), state = m,
             requests = [requestify_get (JStr (page_url cfg page))], finished = True\<rparr>
          else
            (let m1 = m\<lparr>items := body\<rparr>;
                 merged = array_concat (concatenatedResponse m1) (items m1);
                 inner = getPages_paged n cfg get (Suc k) (page + 1) correlationId m1 in
             \<lparr>promise = Pending, last_promise = last_promise inner,
              state = state inner,
              requests = requestify_get (JStr (page_url cfg page)) # requests inner,
              finished = finished inner\<rparr>))"

section \<open>The items a run has fetched\<close>

text \<open>
  The items of the pages answered to a list of requests, the first of them being request
  number \<open>k\<close>: page after page, and within a page in the order of
  \<^verbatim>\<open>_.values\<close>. A request that failed contributes nothing.
\<close>

fun fetched_items :: "upstream \<Rightarrow> nat \<Rightarrow> request list \<Rightarrow> jsval list" where
  "fetched_items get k [] = []"
| "fetched_items get k (rq # rqs) =
     (case get k rq of Inl e \<Rightarrow> [] | Inr r \<Rightarrow> lodash_values r) @
     fetched_items get (Suc k) rqs"

section \<open>The page store\<close>

text \<open>
  \<^verbatim>\<open>MongoStorePersistence.save\<close> talks to collaborators that are not part of the
  sources at hand: \<^verbatim>\<open>getCollection\<close> of the Mongo connector and the driver's
  collection methods. They are taken as an environment. A collection holds its documents
  by \<^verbatim>\<open>_id\<close>; a fault table says which kind of call fails, and with what; a
  call that fails leaves the collection as it was.
\<close>

record 'a DataObject =
  obj_id :: string
  content :: 'a

type_synonym 'a collection = "string \<rightharpoonup> 'a DataObject"

type_synonym 'a database = "string \<Rightarrow> string \<Rightarrow> 'a collection"

datatype driver_call = GetCollection | FindOne | ReplaceOne | InsertOne

type_synonym faults = "driver_call \<Rightarrow> error option"

text \<open>What \<^verbatim>\<open>result\<close> is bound to: \<^verbatim>\<open>false\<close>, or what the driver's
  \<^verbatim>\<open>replaceOne\<close> (matched and upserted counts) or \<^verbatim>\<open>insertOne\<close> (the
  inserted \<^verbatim>\<open>_id\<close>) handed back.\<close>

datatype write_result = ResultFalse | ReplaceOneResult nat nat | InsertOneResult string

definition getCollection ::
  "faults \<Rightarrow> 'a database \<Rightarrow> string \<Rightarrow> string \<Rightarrow> error + 'a collection" where
  "getCollection f db dbName name =
     (case f GetCollection of Some e \<Rightarrow> Inl e | None \<Rightarrow> Inr (db dbName name))"

text \<open>\<^verbatim>\<open>collection.findOne({_id: id})\<close>: the document, or \<^verbatim>\<open>null\<close>.\<close>

definition findOne ::
  "faults \<Rightarrow> 'a collection \<Rightarrow> string \<Rightarrow> error + 'a DataObject option" where
  "findOne f c ident = (case f FindOne of Some e \<Rightarrow> Inl e | None \<Rightarrow> Inr (c ident))"

text \<open>\<^verbatim>\<open>collection.replaceOne({_id: id}, doc, {upsert: u})\<close>.\<close>

definition replaceOne ::
  "faults \<Rightarrow> 'a collection \<Rightarrow> string \<Rightarrow> 'a DataObject \<Rightarrow> bool \<Rightarrow>
     error + (write_result \<times> 'a collection)" where
  "replaceOne f c ident doc upsert =
     (case f ReplaceOne of
        Some e \<Rightarrow> Inl e
      | None \<Rightarrow>
          if c ident \<noteq> None then Inr (ReplaceOneResult 1 0, c(ident \<mapsto> doc))
          else if upsert then Inr (ReplaceOneResult 0 1, c(obj_id doc \<mapsto> doc))
          else Inr (ReplaceOneResult 0 0, c))"

text \<open>\<^verbatim>\<open>collection.insertOne(doc)\<close>: a second document with an \<^verbatim>\<open>_id\<close>
  already present is refused.\<close>

definition insertOne ::
  "faults \<Rightarrow> 'a collection \<Rightarrow> 'a DataObject \<Rightarrow> error + (write_result \<times> 'a collection)" where
  "insertOne f c doc =
     (case f InsertOne of
        Some e \<Rightarrow> Inl e
      | None \<Rightarrow>
          if c (obj_id doc) \<noteq> None then Inl (MongoError ''E11000 duplicate key error'')
          else Inr (InsertOneResult (obj_id doc), c(obj_id doc \<mapsto> doc)))"

record save_result =
  result :: write_result
  update :: bool

text \<open>The body of the \<^verbatim>\<open>try\<close> block of \<^verbatim>\<open>save\<close>; \<open>Inl\<close> is an
  exception leaving the block.\<close>

definition save_try ::
  "faults \<Rightarrow> 'a database \<Rightarrow> 'a DataObject \<Rightarrow> string \<Rightarrow>
     error + (save_result \<times> 'a database)" where
  "save_try f db data dbName =
     (case getCollection f db dbName ''page'' of
        Inl e \<Rightarrow> Inl e
      | Inr collection \<Rightarrow>
          (case findOne f collection (obj_id data) of
             Inl e \<Rightarrow> Inl e
           | Inr exists \<Rightarrow>
               if exists \<noteq> None then
                 (case replaceOne f collection (obj_id data) data True of
                    Inl e \<Rightarrow> Inl e
                  | Inr (res, c') \<Rightarrow>
                      Inr (\<lparr>result = res, update = True\<rparr>,
                           db(dbName := (db dbName)(''page'' := c'))))
               else
                 (case insertOne f collection data of
                    Inl e \<Rightarrow> Inl e
                  | Inr (res, c') \<Rightarrow>
                      Inr (\<lparr>result = res, update = False\<rparr>,
                           db(dbName := (db dbName)(''page'' := c'))))))"

text \<open>
  \<^verbatim>\<open>save(data, dbName)\<close>: the promise of the \<^verbatim>\<open>async\<close> method, together
  with the database it leaves and the lines it logs. The \<^verbatim>\<open>catch\<close> block logs
  and returns; the logger is taken to return normally.
\<close>

definition save ::
  "faults \<Rightarrow> 'a database \<Rightarrow> 'a DataObject \<Rightarrow> string \<Rightarrow>
     (save_result \<times> 'a database \<times> string list) settle" where
  "save f db data dbName =
     (case save_try f db data dbName of
        Inr (r, db') \<Rightarrow> Resolved (r, db', [])
      | Inl e \<Rightarrow>
          Resolved (\<lparr>result = ResultFalse, update = False\<rparr>, db,
                    [''failed to save item to mongo'']))"

section \<open>Sample upstreams and stores\<close>

text \<open>A page whose own properties are \<open>props\<close> followed by a navigation section
  with one next link.\<close>

definition with_next :: "(string \<times> jsval) list \<Rightarrow> string \<Rightarrow> jsval" where
  "with_next props href =
     JObj (props @ [(''_links'', JObj [(''next'', JArr [JObj [(''href'', JStr href)]])])])"

text \<open>Two linked pages: \<open>a\<close> holds one item and points to \<open>b\<close>, which holds
  one item and no link.\<close>

definition two_pages :: upstream where
  "two_pages k rq =
     (if target rq = JStr ''a'' then Inr (with_next [(''0'', JStr ''x'')] ''b'')
      else if target rq = JStr ''b'' then Inr (JArr [JStr ''y''])
      else Inl (RequestFailed ''404''))"

text \<open>A page without items whose next link is its own address \<open>a\<close>.\<close>

definition self_link :: upstream where
  "self_link k rq = Inr (with_next [] ''a'')"

text \<open>A page whose next link is an empty array, so that its first element has no
  \<^verbatim>\<open>href\<close> to read.\<close>

definition broken_link :: upstream where
  "broken_link k rq = Inr (JObj [(''_links'', JObj [(''next'', JArr [])])])"

text \<open>A page that holds nothing but a navigation section without links.\<close>

definition bare_links :: upstream where
  "bare_links k rq = Inr (JObj [(''_links'', JObj [])])"

text \<open>The seed address answers with one page of one item and no link.\<close>

definition one_page :: upstream where
  "one_page k rq =
     (if target rq = JStr seed_url then Inr (JArr [JStr ''x''])
      else Inl (RequestFailed ''404''))"

text \<open>Every request times out.\<close>

definition unreachable :: upstream where
  "unreachable k rq = Inl (RequestFailed ''ETIMEDOUT'')"

text \<open>Every request is answered with an empty array; with \<^verbatim>\<open>null\<close>; with a page
  of one item whose navigation section holds no next link.\<close>

definition empty_pages :: upstream where
  "empty_pages k rq = Inr (JArr [])"

definition null_pages :: upstream where
  "null_pages k rq = Inr JNull"

definition linkless_pages :: upstream where
  "linkless_pages k rq = Inr (JObj [(''0'', JStr ''x''), (''_links'', JObj [])])"

definition sample_config :: config where
  "sample_config = \<lparr>wordpressUrl = ''http://wp'', wordpressApiPath = ''api''\<rparr>"

text \<open>Page 0 holds two items, page 1 is \<^verbatim>\<open>null\<close>.\<close>

definition paged_site :: upstream where
  "paged_site k rq =
     (if target rq = JStr ''http://wp/api?page=0'' then Inr (JArr [JStr ''x'', JStr ''y''])
      else if target rq = JStr ''http://wp/api?page=1'' then Inr JNull
      else Inl (RequestFailed ''404''))"

definition no_faults :: faults where
  "no_faults call = None"

definition find_fails :: faults where
  "find_fails call = (if call = FindOne then Some (MongoError ''connection closed'') else None)"

definition empty_db :: "string database" where
  "empty_db dbName name = Map.empty"

definition sample_doc :: "string DataObject" where
  "sample_doc = \<lparr>obj_id = ''42'', content = ''first''\<rparr>"

definition sample_doc2 :: "string DataObject" where
  "sample_doc2 = \<lparr>obj_id = ''42'', content = ''second''\<rparr>"

definition stored_db :: "string database" where
  "stored_db dbName name =
     (if dbName = ''site'' \<and> name = ''page'' then [''42'' \<mapsto> sample_doc] else Map.empty)"

section \<open>One invocation of the link-following loop\<close>

lemma loop_Suc_rejected:
  "get k (requestify_get url) = Inl e \<Longrightarrow>
   loop (Suc n) get k url self =
     \<lparr>promise = Rejected e, last_promise = Rejected e, state = self,
      requests = [requestify_get url], finished = True\<rparr>"
  by simp

lemma loop_Suc_unreadable:
  "get k (requestify_get url) = Inr r \<Longrightarrow> has_next r = Inl e \<Longrightarrow>
   loop (Suc n) get k url self =
     \<lparr>promise = Rejected e, last_promise = Rejected e,
      state = self\<lparr>results := results self @ lodash_values r\<rparr>,
      requests = [requestify_get url], finished = True\<rparr>"
  by simp

lemma loop_Suc_no_next:
  "get k (requestify_get url) = Inr r \<Longrightarrow> has_next r = Inr False \<Longrightarrow>
   loop (Suc n) get k url self =
     \<lparr>promise = Resolved (JArr (results self @ lodash_values r)),
      last_promise = Resolved (JArr (results self @ lodash_values r)),
      state = self\<lparr>results := results self @ lodash_values r\<rparr>,
      requests = [requestify_get url], finished = True\<rparr>"
  by simp

lemma loop_Suc_bad_href:
  "get k (requestify_get url) = Inr r \<Longrightarrow> has_next r = Inr True \<Longrightarrow>
   next_href r = Inl e \<Longrightarrow>
   loop (Suc n) get k url self =
     \<lparr>promise = Rejected e, last_promise = Rejected e,
      state = self\<lparr>results := results self @ lodash_values r\<rparr>,
      requests = [requestify_get url], finished = True\<rparr>"
  by simp

lemma loop_Suc_follow:
  "get k (requestify_get url) = Inr r \<Longrightarrow> has_next r = Inr True \<Longrightarrow>
   next_href r = Inr href \<Longrightarrow>
   loop (Suc n) get k url self =
     \<lparr>promise = Resolved JUndefined,
      last_promise =
        last_promise (loop n get (Suc k) href (self\<lparr>results := results self @ lodash_values r\<rparr>)),
      state = state (loop n get (Suc k) href (self\<lparr>results := results self @ lodash_values r\<rparr>)),
      requests = requestify_get url #
        requests (loop n get (Suc k) href (self\<lparr>results := results self @ lodash_values r\<rparr>)),
      finished = finished (loop n get (Suc k) href (self\<lparr>results := results self @ lodash_values r\<rparr>))\<rparr>"
  by (simp add: Let_def)

lemmas loop_Suc_ends = loop_Suc_rejected loop_Suc_unreadable loop_Suc_no_next loop_Suc_bad_href

text \<open>The five ways one invocation can go.\<close>

lemma step_cases [case_names rejected unreadable no_next bad_href follow]:
  fixes get :: upstream
  obtains
    (rejected) e where "get k (requestify_get url) = Inl e"
  | (unreadable) r e where "get k (requestify_get url) = Inr r" and "has_next r = Inl e"
  | (no_next) r where "get k (requestify_get url) = Inr r" and "has_next r = Inr False"
  | (bad_href) r e where "get k (requestify_get url) = Inr r" and "has_next r = Inr True"
      and "next_href r = Inl e"
  | (follow) r href where "get k (requestify_get url) = Inr r" and "has_next r = Inr True"
      and "next_href r = Inr href"
proof (cases "get k (requestify_get url)")
  case (Inl e)
  then show ?thesis by (rule rejected)
next
  case (Inr r)
  note body = this
  show ?thesis
  proof (cases "has_next r")
    case (Inl e)
    with body show ?thesis by (rule unreadable)
  next
    case (Inr b)
    note nx = this
    show ?thesis
    proof (cases b)
      case False
      with body nx show ?thesis by (auto intro: no_next)
    next
      case True
      with nx have t: "has_next r = Inr True" by simp
      show ?thesis
      proof (cases "next_href r")
        case (Inl e)
        with body t show ?thesis by (rule bad_href)
      next
        case (Inr href)
        with body t show ?thesis by (rule follow)
      qed
    qed
  qed
qed

declare loop.simps(2) [simp del]

declare digits.simps [simp del]

section \<open>Requests and accumulator of the link-following loop\<close>

lemma loop_requests_length: "length (requests (loop n get k url self)) \<le> n"
proof (induction n arbitrary: k url self)
  case 0
  show ?case by simp
next
  case (Suc n)
  show ?case
  proof (cases get k url rule: step_cases)
    case (follow r href)
    then show ?thesis using Suc.IH by (simp add: loop_Suc_follow)
  qed (simp_all add: loop_Suc_ends)
qed

lemma loop_first_request:
  "requests (loop (Suc n) get k url self) \<noteq> [] \<and>
   hd (requests (loop (Suc n) get k url self)) = requestify_get url"
  by (cases get k url rule: step_cases) (simp_all add: loop_Suc_ends loop_Suc_follow)

text \<open>A run that has come to its end is the same however many more invocations are
  allowed.\<close>

lemma loop_more_fuel:
  "finished (loop n get k url self) \<Longrightarrow> loop (n + d) get k url self = loop n get k url self"
proof (induction n arbitrary: k url self)
  case 0
  then show ?case by simp
next
  case (Suc n)
  show ?case
  proof (cases get k url rule: step_cases)
    case (follow r href)
    with Suc.prems have "finished (loop n get (Suc k) href
        (self\<lparr>results := results self @ lodash_values r\<rparr>))"
      by (simp add: loop_Suc_follow)
    from Suc.IH [OF this] show ?thesis using follow by (simp add: loop_Suc_follow)
  qed (simp_all add: loop_Suc_ends)
qed

text \<open>The accumulator after a run is the accumulator before it, followed by the items
  of the pages the run fetched, in the order fetched.\<close>

lemma loop_results_append:
  "results (state (loop n get k url self)) =
     results self @ fetched_items get k (requests (loop n get k url self))"
proof (induction n arbitrary: k url self)
  case 0
  show ?case by simp
next
  case (Suc n)
  show ?case
  proof (cases get k url rule: step_cases)
    case (follow r href)
    then show ?thesis by (simp add: loop_Suc_follow Suc.IH)
  qed (simp_all add: loop_Suc_ends)
qed

lemma loop_request_options:
  "rq \<in> set (requests (loop n get k url self)) \<Longrightarrow>
     verb rq = GET \<and> redirect rq \<and> timeout rq = 120000"
proof (induction n arbitrary: k url self)
  case 0
  then show ?case by simp
next
  case (Suc n)
  show ?case
  proof (cases get k url rule: step_cases)
    case (follow r href)
    with Suc.prems have "rq = requestify_get url \<or>
        rq \<in> set (requests (loop n get (Suc k) href
          (self\<lparr>results := results self @ lodash_values r\<rparr>)))"
      by (simp add: loop_Suc_follow)
    then show ?thesis using Suc.IH by (auto simp: requestify_get_def)
  qed (use Suc.prems in \<open>simp_all add: loop_Suc_ends requestify_get_def\<close>)
qed

section \<open>One invocation of the page-number connector\<close>

lemma getPages_paged_rejected:
  "get k (requestify_get (JStr (page_url cfg page))) = Inl e \<Longrightarrow>
   getPages_paged (Suc n) cfg get k page cid m =
     \<lparr>promise = Rejected e, last_promise = Rejected e, state = m,
      requests = [requestify_get (JStr (page_url cfg page))], finished = True\<rparr>"
  by simp

lemma getPages_paged_null:
  "get k (requestify_get (JStr (page_url cfg page))) = Inr JNull \<Longrightarrow>
   getPages_paged (Suc n) cfg get k page cid m =
     \<lparr>promise = Resolved (JArr (concatenatedResponse m)),
      last_promise = Resolved (JArr (concatenatedResponse m)), state = m,
      requests = [requestify_get (JStr (page_url cfg page))], finished = True\<rparr>"
  by simp

lemma getPages_paged_next:
  "get k (requestify_get (JStr (page_url cfg page))) = Inr body \<Longrightarrow> body \<noteq> JNull \<Longrightarrow>
   getPages_paged (Suc n) cfg get k page cid m =
     \<lparr>promise = Pending,
      last_promise = last_promise (getPages_paged n cfg get (Suc k) (page + 1) cid (m\<lparr>items := body\<rparr>)),
      state = state (getPages_paged n cfg get (Suc k) (page + 1) cid (m\<lparr>items := body\<rparr>)),
      requests = requestify_get (JStr (page_url cfg page)) #
        requests (getPages_paged n cfg get (Suc k) (page + 1) cid (m\<lparr>items := body\<rparr>)),
      finished = finished (getPages_paged n cfg get (Suc k) (page + 1) cid (m\<lparr>items := body\<rparr>))\<rparr>"
  by (simp add: Let_def)

lemma paged_cases [case_names rejected null_body other_body]:
  fixes get :: upstream
  obtains
    (rejected) e where "get k (requestify_get (JStr (page_url cfg page))) = Inl e"
  | (null_body) "get k (requestify_get (JStr (page_url cfg page))) = Inr JNull"
  | (other_body) body where "get k (requestify_get (JStr (page_url cfg page))) = Inr body"
      and "body \<noteq> JNull"
proof (cases "get k (requestify_get (JStr (page_url cfg page)))")
  case (Inl e)
  then show ?thesis by (rule rejected)
next
  case (Inr body)
  then show ?thesis by (cases "body = JNull") (auto intro: null_body other_body)
qed

declare getPages_paged.simps(2) [simp del]

text \<open>No call changes the module-level array.\<close>

lemma getPages_paged_concatenatedResponse:
  "concatenatedResponse (state (getPages_paged n cfg get k page cid m)) =
     concatenatedResponse m"
proof (induction n arbitrary: k page m)
  case 0
  show ?case by simp
next
  case (Suc n)
  show ?case
  proof (cases get k cfg page rule: paged_cases)
    case (other_body body)
    then show ?thesis by (simp add: getPages_paged_next Suc.IH)
  qed (simp_all add: getPages_paged_rejected getPages_paged_null)
qed

lemma getPages_paged_request_options:
  "rq \<in> set (requests (getPages_paged n cfg get k page cid m)) \<Longrightarrow>
     verb rq = GET \<and> redirect rq \<and> timeout rq = 120000"
proof (induction n arbitrary: k page m)
  case 0
  then show ?case by simp
next
  case (Suc n)
  show ?case
  proof (cases get k cfg page rule: paged_cases)
    case (other_body body)
    with Suc.prems have "rq = requestify_get (JStr (page_url cfg page)) \<or>
        rq \<in> set (requests (getPages_paged n cfg get (Suc k) (page + 1) cid (m\<lparr>items := body\<rparr>)))"
      by (simp add: getPages_paged_next)
    then show ?thesis using Suc.IH by (auto simp: requestify_get_def)
  qed (use Suc.prems in
      \<open>simp_all add: getPages_paged_rejected getPages_paged_null requestify_get_def\<close>)
qed

lemma getPages_paged_requests_length:
  "length (requests (getPages_paged n cfg get k page cid m)) \<le> n"
proof (induction n arbitrary: k page m)
  case 0
  show ?case by simp
next
  case (Suc n)
  show ?case
  proof (cases get k cfg page rule: paged_cases)
    case (other_body body)
    then show ?thesis using Suc.IH by (simp add: getPages_paged_next)
  qed (simp_all add: getPages_paged_rejected getPages_paged_null)
qed

lemma getPages_paged_more_fuel:
  "finished (getPages_paged n cfg get k page cid m) \<Longrightarrow>
   getPages_paged (n + d) cfg get k page cid m = getPages_paged n cfg get k page cid m"
proof (induction n arbitrary: k page m)
  case 0
  then show ?case by simp
next
  case (Suc n)
  show ?case
  proof (cases get k cfg page rule: paged_cases)
    case (other_body body)
    with Suc.prems have "finished (getPages_paged n cfg get (Suc k) (page + 1) cid
        (m\<lparr>items := body\<rparr>))"
      by (simp add: getPages_paged_next)
    from Suc.IH [OF this] show ?thesis using other_body by (simp add: getPages_paged_next)
  qed (simp_all add: getPages_paged_rejected getPages_paged_null)
qed

section \<open>Evaluating the samples\<close>

lemma requestify_get_sel [simp]:
  "verb (requestify_get u) = GET" "target (requestify_get u) = u"
  "redirect (requestify_get u) = True" "timeout (requestify_get u) = 120000"
  by (simp_all add: requestify_get_def)

lemma requestify_get_eq [simp]: "requestify_get u = requestify_get v \<longleftrightarrow> u = v"
  by (auto simp: requestify_get_def)

lemma sample_page_a:
  "has_next (with_next [(''0'', JStr ''x'')] ''b'') = Inr True"
  "next_href (with_next [(''0'', JStr ''x'')] ''b'') = Inr (JStr ''b'')"
  "lodash_values (with_next [(''0'', JStr ''x'')] ''b'') =
     [JStr ''x'', JObj [(''next'', JArr [JObj [(''href'', JStr ''b'')]])]]"
  by (simp_all add: has_next_def next_href_def with_next_def)

lemma has_next_array [simp]: "has_next (JArr xs) = Inr False"
  by (simp add: has_next_def)

lemma two_pages_run:
  "loop (Suc (Suc n)) two_pages k (JStr ''a'') self =
     \<lparr>promise = Resolved JUndefined,
      last_promise = Resolved (JArr (results self @
        [JStr ''x'', JObj [(''next'', JArr [JObj [(''href'', JStr ''b'')]])], JStr ''y''])),
      state = self\<lparr>results := results self @
        [JStr ''x'', JObj [(''next'', JArr [JObj [(''href'', JStr ''b'')]])], JStr ''y'']\<rparr>,
      requests = [requestify_get (JStr ''a''), requestify_get (JStr ''b'')],
      finished = True\<rparr>"
proof -
  have a: "two_pages k (requestify_get (JStr ''a'')) = Inr (with_next [(''0'', JStr ''x'')] ''b'')"
    by (simp add: two_pages_def)
  have b: "two_pages (Suc k) (requestify_get (JStr ''b'')) = Inr (JArr [JStr ''y''])"
    by (simp add: two_pages_def)
  show ?thesis
    by (simp add:
        loop_Suc_follow [of two_pages k "JStr ''a''", OF a sample_page_a(1) sample_page_a(2)]
        loop_Suc_no_next [of two_pages "Suc k" "JStr ''b''", OF b has_next_array]
        sample_page_a(3))
qed

lemma sample_urls:
  "page_url sample_config 0 = ''http://wp/api?page=0''"
  "page_url sample_config 1 = ''http://wp/api?page=1''"
  "page_url sample_config 7 = ''http://wp/api?page=7''"
  by (simp_all add: page_url_def sample_config_def number_to_string_def digits.simps)

lemma paged_site_run:
  "getPages_paged (Suc (Suc n)) sample_config paged_site k 0 cid initial_module =
    \<lparr>promise = Pending, last_promise = Resolved (JArr []),
     state = initial_module\<lparr>items := JArr [JStr ''x'', JStr ''y'']\<rparr>,
     requests = [requestify_get (JStr ''http://wp/api?page=0''),
       requestify_get (JStr ''http://wp/api?page=1'')],
     finished = True\<rparr>"
proof -
  have p0: "paged_site k (requestify_get (JStr (page_url sample_config 0))) =
      Inr (JArr [JStr ''x'', JStr ''y''])"
    by (simp add: paged_site_def sample_urls)
  have p1: "paged_site (Suc k) (requestify_get (JStr (page_url sample_config (0 + 1)))) =
      Inr JNull"
    by (simp add: paged_site_def sample_urls)
  have "getPages_paged (Suc (Suc n)) sample_config paged_site k 0 cid initial_module =
    \<lparr>promise = Pending, last_promise = Resolved (JArr []),
     state = initial_module\<lparr>items := JArr [JStr ''x'', JStr ''y'']\<rparr>,
     requests = [requestify_get (JStr (page_url sample_config 0)),
       requestify_get (JStr (page_url sample_config (0 + 1)))],
     finished = True\<rparr>"
    by (simp add: getPages_paged_next [of paged_site k sample_config 0, OF p0]
        getPages_paged_null [of paged_site "Suc k" sample_config "0 + 1", OF p1]
        initial_module_def del: add_0)
  then show ?thesis by (simp add: sample_urls)
qed

lemma broken_link_page:
  "has_next (JObj [(''_links'', JObj [(''next'', JArr [])])]) = Inr True"
  "next_href (JObj [(''_links'', JObj [(''next'', JArr [])])]) = Inl TypeError"
  by (simp_all add: has_next_def next_href_def)

section \<open>The request of a page fetch\<close>

text \<open>
  C8. Every page fetch is one HTTP GET to the address at hand, with redirects followed
  and a timeout of 120 000 ms. For both connectors: an invocation starts with exactly
  that request to its own address; every request of a run is a GET with
  \<^verbatim>\<open>redirect: true\<close> and \<^verbatim>\<open>timeout: 120000\<close>; and a run of \<open>n\<close>
  invocations issues at most \<open>n\<close> requests, one per page.
\<close>

theorem page_fetch_request:
  "take 1 (requests (loop (Suc n) get k url self)) =
     [\<lparr>verb = GET, target = url, redirect = True, timeout = 120000\<rparr>] \<and>
   (\<forall>rq \<in> set (requests (loop n get k url self)).
      verb rq = GET \<and> redirect rq \<and> timeout rq = 120000) \<and>
   length (requests (loop n get k url self)) \<le> n \<and>
   take 1 (requests (getPages_paged (Suc n) cfg get k page cid m)) =
     [\<lparr>verb = GET, target = JStr (page_url cfg page), redirect = True, timeout = 120000\<rparr>] \<and>
   (\<forall>rq \<in> set (requests (getPages_paged n cfg get k page cid m)).
      verb rq = GET \<and> redirect rq \<and> timeout rq = 120000) \<and>
   length (requests (getPages_paged n cfg get k page cid m)) \<le> n"
proof -
  have "take 1 (requests (loop (Suc n) get k url self)) = [requestify_get url]"
    by (cases get k url rule: step_cases) (simp_all add: loop_Suc_ends loop_Suc_follow)
  moreover have "take 1 (requests (getPages_paged (Suc n) cfg get k page cid m)) =
      [requestify_get (JStr (page_url cfg page))]"
    by (cases get k cfg page rule: paged_cases)
       (simp_all add: getPages_paged_rejected getPages_paged_null getPages_paged_next)
  ultimately show ?thesis
    using loop_request_options [of _ n get k url self]
      getPages_paged_request_options [of _ n cfg get k page cid m]
      loop_requests_length [of n get k url self]
      getPages_paged_requests_length [of n cfg get k page cid m]
    by (simp add: requestify_get_def)
qed

theorem page_fetch_request_witness:
  "requestify_get (JStr ''b'') \<in>
     set (requests (loop 2 two_pages 0 (JStr ''a'') new_connector)) \<and>
   verb (requestify_get (JStr ''b'')) = GET \<and>
   redirect (requestify_get (JStr ''b'')) \<and>
   timeout (requestify_get (JStr ''b'')) = 120000 \<and>
   requestify_get (JStr ''http://wp/api?page=1'') \<in>
     set (requests (getPages_paged 2 sample_config paged_site 0 0 ''cid'' initial_module)) \<and>
   verb (requestify_get (JStr ''http://wp/api?page=1'')) = GET \<and>
   redirect (requestify_get (JStr ''http://wp/api?page=1'')) \<and>
   timeout (requestify_get (JStr ''http://wp/api?page=1'')) = 120000"
proof -
  have mem: "requestify_get (JStr ''b'') \<in>
      set (requests (loop 2 two_pages 0 (JStr ''a'') new_connector))"
    by (simp add: numeral_2_eq_2 two_pages_run)
  have mem': "requestify_get (JStr ''http://wp/api?page=1'') \<in>
      set (requests (getPages_paged 2 sample_config paged_site 0 0 ''cid'' initial_module))"
    by (simp add: numeral_2_eq_2 paged_site_run)
  from mem mem'
    page_fetch_request [where n = 2 and get = two_pages and k = 0 and url = "JStr ''a''"
      and self = new_connector]
    page_fetch_request [where n = 2 and get = paged_site and k = 0 and cfg = sample_config
      and page = 0 and cid = "''cid''" and m = initial_module]
  show ?thesis by blast
qed

section \<open>An empty seed page\<close>

text \<open>
  C7, as the code has it. Each connector completes with an empty result set on its own
  form of an empty seed response. Link-following connector, on an instance whose
  \<^verbatim>\<open>results\<close> array is still empty: a seed body without any values whose next-link
  test reads as falsy fulfils the promise of \<^verbatim>\<open>loop\<close> with the empty array.
  Page-number connector, with the module-level array empty (it always is, see
  \<open>getPages_paged_concatenatedResponse\<close>): a \<^verbatim>\<open>null\<close> seed body fulfils the
  promise of \<^verbatim>\<open>getPages\<close> with the empty array.
\<close>

theorem empty_seed_resolves_empty:
  "(get k (requestify_get url) = Inr r \<longrightarrow> lodash_values r = [] \<longrightarrow>
      has_next r = Inr False \<longrightarrow> results self = [] \<longrightarrow>
      promise (loop (Suc n) get k url self) = Resolved (JArr []) \<and>
      last_promise (loop (Suc n) get k url self) = Resolved (JArr []) \<and>
      finished (loop (Suc n) get k url self)) \<and>
   (get k (requestify_get (JStr (page_url cfg page))) = Inr JNull \<longrightarrow>
      concatenatedResponse m = [] \<longrightarrow>
      promise (getPages_paged (Suc n) cfg get k page cid m) = Resolved (JArr []) \<and>
      last_promise (getPages_paged (Suc n) cfg get k page cid m) = Resolved (JArr []) \<and>
      finished (getPages_paged (Suc n) cfg get k page cid m))"
  by (simp add: loop_Suc_no_next getPages_paged_null)

theorem empty_seed_resolves_empty_witness:
  "promise (loop 1 empty_pages 0 (JStr ''a'') new_connector) = Resolved (JArr []) \<and>
   promise (getPages_paged 1 sample_config null_pages 0 0 ''cid'' initial_module) =
     Resolved (JArr [])"
  using empty_seed_resolves_empty [of empty_pages 0 "JStr ''a''" "JArr []" new_connector 0
      sample_config 0 initial_module "''cid''"]
    empty_seed_resolves_empty [of null_pages 0 "JStr ''a''" "JArr []" new_connector 0
      sample_config 0 initial_module "''cid''"]
  by (simp add: empty_pages_def null_pages_def new_connector_def initial_module_def)

lemma empty_pages_paged_run:
  "finished (getPages_paged n cfg empty_pages k page cid m) = False \<and>
   promise (getPages_paged n cfg empty_pages k page cid m) = Pending \<and>
   last_promise (getPages_paged n cfg empty_pages k page cid m) = Pending \<and>
   length (requests (getPages_paged n cfg empty_pages k page cid m)) = n"
proof (induction n arbitrary: k page m)
  case 0
  show ?case by simp
next
  case (Suc n)
  have "empty_pages k (requestify_get (JStr (page_url cfg page))) = Inr (JArr [])"
    by (simp add: empty_pages_def)
  from getPages_paged_next [of empty_pages k cfg page, OF this] show ?case
    by (simp add: Suc.IH)
qed

text \<open>
  The claim as it is written fails on seed responses without items and without next
  link. The page-number connector, answered with empty arrays, requests page after page
  and leaves its caller's promise pending. The link-following connector, on an instance
  that already holds an item, fulfils with that item; answered with a page that holds
  only an empty navigation section, it fulfils with that section as an item; answered
  with \<^verbatim>\<open>null\<close>, it is rejected.
\<close>

theorem empty_seed_not_empty_result_counterexample:
  "lodash_values (JArr []) = [] \<and> has_next (JArr []) = Inr False \<and>
   length (requests
     (getPages_paged 3 sample_config empty_pages 0 0 ''cid'' initial_module)) = 3 \<and>
   finished (getPages_paged 3 sample_config empty_pages 0 0 ''cid'' initial_module) = False \<and>
   promise (getPages_paged 3 sample_config empty_pages 0 0 ''cid'' initial_module) = Pending \<and>
   promise (loop 1 empty_pages 0 (JStr ''a'') \<lparr>results = [JStr ''old'']\<rparr>) =
     Resolved (JArr [JStr ''old'']) \<and>
   has_next (JObj [(''_links'', JObj [])]) = Inr False \<and>
   promise (loop 1 bare_links 0 (JStr ''a'') new_connector) = Resolved (JArr [JObj []]) \<and>
   lodash_values JNull = [] \<and>
   promise (loop 1 null_pages 0 (JStr ''a'') new_connector) = Rejected TypeError"
proof -
  have e: "empty_pages 0 (requestify_get (JStr ''a'')) = Inr (JArr [])"
    by (simp add: empty_pages_def)
  have b: "bare_links 0 (requestify_get (JStr ''a'')) = Inr (JObj [(''_links'', JObj [])])"
    by (simp add: bare_links_def)
  have hb: "has_next (JObj [(''_links'', JObj [])]) = Inr False"
    by (simp add: has_next_def)
  have old: "promise (loop (Suc 0) empty_pages 0 (JStr ''a'') \<lparr>results = [JStr ''old'']\<rparr>) =
      Resolved (JArr [JStr ''old''])"
    by (simp add: loop_Suc_no_next [of empty_pages 0 "JStr ''a''", OF e has_next_array])
  have bare: "promise (loop (Suc 0) bare_links 0 (JStr ''a'') new_connector) =
      Resolved (JArr [JObj []])"
    by (simp add: loop_Suc_no_next [of bare_links 0 "JStr ''a''", OF b hb] new_connector_def)
  have n: "null_pages 0 (requestify_get (JStr ''a'')) = Inr JNull"
    by (simp add: null_pages_def)
  have hn: "has_next JNull = Inl TypeError"
    by (simp add: has_next_def)
  have null: "promise (loop (Suc 0) null_pages 0 (JStr ''a'') new_connector) =
      Rejected TypeError"
    by (simp add: loop_Suc_unreadable [of null_pages 0 "JStr ''a''", OF n hn])
  show ?thesis
    using empty_pages_paged_run [of 3 sample_config 0 0 "''cid''" initial_module]
      old bare hb null
    by simp
qed

section \<open>When a traversal is done\<close>

lemma loop_done_iff:
  "(finished (loop n get k url self) \<and>
    last_promise (loop n get k url self) =
      Resolved (JArr (results (state (loop n get k url self))))) \<longleftrightarrow>
   (\<exists>j < length (requests (loop n get k url self)). \<exists>r.
      get (k + j) (requests (loop n get k url self) ! j) = Inr r \<and> has_next r = Inr False)"
proof (induction n arbitrary: k url self)
  case 0
  show ?case by simp
next
  case (Suc n)
  show ?case
  proof (cases get k url rule: step_cases)
    case (follow r href)
    then show ?thesis
      using Suc.IH [of "Suc k" href "self\<lparr>results := results self @ lodash_values r\<rparr>"]
      by (simp add: loop_Suc_follow Ex_less_Suc2)
  qed (simp_all add: loop_Suc_ends)
qed

lemma paged_done_iff:
  "(finished (getPages_paged n cfg get k page cid m) \<and>
    last_promise (getPages_paged n cfg get k page cid m) =
      Resolved (JArr (concatenatedResponse (state (getPages_paged n cfg get k page cid m))))) \<longleftrightarrow>
   (\<exists>j < length (requests (getPages_paged n cfg get k page cid m)).
      get (k + j) (requests (getPages_paged n cfg get k page cid m) ! j) = Inr JNull)"
proof (induction n arbitrary: k page m)
  case 0
  show ?case by simp
next
  case (Suc n)
  show ?case
  proof (cases get k cfg page rule: paged_cases)
    case (other_body body)
    then show ?thesis
      using Suc.IH [of "Suc k" "page + 1" "m\<lparr>items := body\<rparr>"]
      by (simp add: getPages_paged_next Ex_less_Suc2)
  qed (simp_all add: getPages_paged_rejected getPages_paged_null)
qed

text \<open>Against an upstream whose every page holds an item and is not \<^verbatim>\<open>null\<close>, the
  page-number connector goes on for as long as it is followed.\<close>

lemma linkless_pages_run:
  "finished (getPages_paged n cfg linkless_pages k page cid m) = False \<and>
   last_promise (getPages_paged n cfg linkless_pages k page cid m) = Pending \<and>
   length (requests (getPages_paged n cfg linkless_pages k page cid m)) = n"
proof (induction n arbitrary: k page m)
  case 0
  show ?case by simp
next
  case (Suc n)
  have "linkless_pages k (requestify_get (JStr (page_url cfg page))) =
      Inr (JObj [(''0'', JStr ''x''), (''_links'', JObj [])])"
    by (simp add: linkless_pages_def)
  from getPages_paged_next [of linkless_pages k cfg page, OF this] show ?case
    by (simp add: Suc.IH)
qed

text \<open>
  C5, as the code has it. Each connector has its own end-of-data test, and the traversal
  reaches its Done branch, the last invocation fulfilling its promise with the
  accumulator, exactly when some fetched page passes that test. For the link-following
  connector the test is that \<^verbatim>\<open>r["_links"] && r["_links"]["next"]\<close> can be read
  and is falsy; for the page-number connector it is that the body is \<^verbatim>\<open>null\<close>,
  whatever navigation section a page may have.
\<close>

theorem done_iff_end_of_data:
  "((finished (loop n get k url self) \<and>
     last_promise (loop n get k url self) =
       Resolved (JArr (results (state (loop n get k url self))))) \<longleftrightarrow>
    (\<exists>j < length (requests (loop n get k url self)). \<exists>r.
       get (k + j) (requests (loop n get k url self) ! j) = Inr r \<and>
       has_next r = Inr False)) \<and>
   ((finished (getPages_paged n cfg get k page cid m) \<and>
     last_promise (getPages_paged n cfg get k page cid m) =
       Resolved (JArr (concatenatedResponse (state (getPages_paged n cfg get k page cid m))))) \<longleftrightarrow>
    (\<exists>j < length (requests (getPages_paged n cfg get k page cid m)).
       get (k + j) (requests (getPages_paged n cfg get k page cid m) ! j) = Inr JNull))"
  using loop_done_iff [of n get k url self] paged_done_iff [of n cfg get k page cid m]
  by (rule conjI)

theorem done_iff_end_of_data_witness:
  "finished (loop 2 two_pages 0 (JStr ''a'') new_connector) \<and>
   last_promise (loop 2 two_pages 0 (JStr ''a'') new_connector) =
     Resolved (JArr (results (state (loop 2 two_pages 0 (JStr ''a'') new_connector)))) \<and>
   finished (getPages_paged 2 sample_config paged_site 0 0 ''cid'' initial_module) \<and>
   last_promise (getPages_paged 2 sample_config paged_site 0 0 ''cid'' initial_module) =
     Resolved (JArr (concatenatedResponse
       (state (getPages_paged 2 sample_config paged_site 0 0 ''cid'' initial_module))))"
proof -
  have "1 < length (requests (loop 2 two_pages 0 (JStr ''a'') new_connector)) \<and>
      two_pages (0 + 1) (requests (loop 2 two_pages 0 (JStr ''a'') new_connector) ! 1) =
        Inr (JArr [JStr ''y'']) \<and>
      has_next (JArr [JStr ''y'']) = Inr False"
    by (simp add: numeral_2_eq_2 two_pages_run two_pages_def)
  then have link: "\<exists>j < length (requests (loop 2 two_pages 0 (JStr ''a'') new_connector)). \<exists>r.
      two_pages (0 + j) (requests (loop 2 two_pages 0 (JStr ''a'') new_connector) ! j) = Inr r \<and>
      has_next r = Inr False"
    by blast
  have "1 < length (requests
        (getPages_paged 2 sample_config paged_site 0 0 ''cid'' initial_module)) \<and>
      paged_site (0 + 1) (requests
        (getPages_paged 2 sample_config paged_site 0 0 ''cid'' initial_module) ! 1) = Inr JNull"
    by (simp add: numeral_2_eq_2 paged_site_run paged_site_def)
  then have paged: "\<exists>j < length (requests
        (getPages_paged 2 sample_config paged_site 0 0 ''cid'' initial_module)).
      paged_site (0 + j) (requests
        (getPages_paged 2 sample_config paged_site 0 0 ''cid'' initial_module) ! j) = Inr JNull"
    by blast
  from link paged
    done_iff_end_of_data [where n = 2 and get = two_pages and k = 0 and url = "JStr ''a''"
      and self = new_connector]
    done_iff_end_of_data [where n = 2 and get = paged_site and k = 0 and cfg = sample_config
      and page = 0 and cid = "''cid''" and m = initial_module]
  show ?thesis by blast
qed

text \<open>
  The claim as it is written fails on the page-number connector: every page of
  \<open>linkless_pages\<close> has a navigation section without next link, and yet three
  invocations issue three requests without reaching Done.
\<close>

theorem no_next_link_not_done_counterexample:
  "has_next (JObj [(''0'', JStr ''x''), (''_links'', JObj [])]) = Inr False \<and>
   length (requests
     (getPages_paged 3 sample_config linkless_pages 0 0 ''cid'' initial_module)) = 3 \<and>
   finished (getPages_paged 3 sample_config linkless_pages 0 0 ''cid'' initial_module) = False \<and>
   last_promise (getPages_paged 3 sample_config linkless_pages 0 0 ''cid'' initial_module) =
     Pending"
  using linkless_pages_run [of 3 sample_config 0 0 "''cid''" initial_module]
  by (simp add: has_next_def)

section \<open>Links that lead back\<close>

lemma self_link_page:
  "has_next (with_next [] ''a'') = Inr True"
  "next_href (with_next [] ''a'') = Inr (JStr ''a'')"
  by (simp_all add: has_next_def next_href_def with_next_def)

lemma self_link_run:
  "requests (loop n self_link k (JStr ''a'') self) = replicate n (requestify_get (JStr ''a'')) \<and>
   finished (loop n self_link k (JStr ''a'') self) = False \<and>
   last_promise (loop n self_link k (JStr ''a'') self) = Pending \<and>
   promise (loop n self_link k (JStr ''a'') self) = (if n = 0 then Pending else Resolved JUndefined)"
proof (induction n arbitrary: k self)
  case 0
  show ?case by simp
next
  case (Suc n)
  have "self_link k (requestify_get (JStr ''a'')) = Inr (with_next [] ''a'')"
    by (simp add: self_link_def)
  from loop_Suc_follow [of self_link k "JStr ''a''", OF this self_link_page]
  show ?case by (simp add: Suc.IH)
qed

text \<open>
  C3, as the code has it. The connector keeps no record of the addresses it has visited
  and raises no cycle error: whenever a fetched page has a next link that can be read,
  and one more invocation is followed, the next request goes to that link, whether or
  not the address was requested before, the page's own address included.
\<close>

theorem follows_link_without_cycle_check:
  "j < length (requests (loop n get k url self)) \<Longrightarrow> Suc j < n \<Longrightarrow>
   get (k + j) (requests (loop n get k url self) ! j) = Inr r \<Longrightarrow>
   has_next r = Inr True \<Longrightarrow> next_href r = Inr href \<Longrightarrow>
   Suc j < length (requests (loop n get k url self)) \<and>
   requests (loop n get k url self) ! Suc j = requestify_get href"
proof (induction n arbitrary: k url self j)
  case 0
  then show ?case by simp
next
  case (Suc n)
  show ?case
  proof (cases get k url rule: step_cases)
    case (follow r' href')
    let ?inner = "loop n get (Suc k) href' (self\<lparr>results := results self @ lodash_values r'\<rparr>)"
    have rqs: "requests (loop (Suc n) get k url self) = requestify_get url # requests ?inner"
      using follow by (simp add: loop_Suc_follow)
    show ?thesis
    proof (cases j)
      case 0
      with Suc.prems rqs follow have same: "r = r'" "href = href'" by simp_all
      from Suc.prems 0 obtain n' where n: "n = Suc n'" by (cases n) simp_all
      from loop_first_request [of n' get "Suc k" href' "self\<lparr>results := results self @ lodash_values r'\<rparr>"]
      show ?thesis using 0 rqs same n by (cases "requests ?inner") simp_all
    next
      case (Suc j')
      with Suc.prems rqs have "j' < length (requests ?inner)" "Suc j' < n"
        "get (Suc k + j') (requests ?inner ! j') = Inr r" by simp_all
      from Suc.IH [OF this Suc.prems(4,5)] show ?thesis using Suc rqs by simp
    qed
  qed (use Suc.prems in \<open>simp_all add: loop_Suc_ends\<close>)
qed

theorem follows_link_without_cycle_check_witness:
  "target (requests (loop 3 self_link 0 (JStr ''a'') new_connector) ! 0) = JStr ''a'' \<and>
   requests (loop 3 self_link 0 (JStr ''a'') new_connector) ! Suc 0 = requestify_get (JStr ''a'')"
proof -
  have rqs: "requests (loop 3 self_link 0 (JStr ''a'') new_connector) =
      [requestify_get (JStr ''a''), requestify_get (JStr ''a''), requestify_get (JStr ''a'')]"
    using self_link_run [of 3 0 new_connector] by (simp add: numeral_3_eq_3)
  have "0 < length (requests (loop 3 self_link 0 (JStr ''a'') new_connector))"
    and "Suc 0 < 3"
    and "self_link (0 + 0) (requests (loop 3 self_link 0 (JStr ''a'') new_connector) ! 0) =
      Inr (with_next [] ''a'')"
    by (simp_all add: rqs self_link_def)
  from follows_link_without_cycle_check [OF this self_link_page]
  show ?thesis by (simp add: rqs)
qed

text \<open>
  The claim as it is written fails: the page at \<open>a\<close> names \<open>a\<close> as its next
  page, and the connector requests \<open>a\<close> a second and a third time; no promise is
  rejected.
\<close>

theorem revisit_fetches_again_counterexample:
  "next_href (with_next [] ''a'') = Inr (JStr ''a'') \<and>
   requests (loop 3 self_link 0 (JStr ''a'') new_connector) =
     [requestify_get (JStr ''a''), requestify_get (JStr ''a''), requestify_get (JStr ''a'')] \<and>
   promise (loop 3 self_link 0 (JStr ''a'') new_connector) = Resolved JUndefined \<and>
   last_promise (loop 3 self_link 0 (JStr ''a'') new_connector) = Pending \<and>
   finished (loop 3 self_link 0 (JStr ''a'') new_connector) = False"
  using self_link_run [of 3 0 new_connector] self_link_page(2)
  by (simp add: numeral_3_eq_3)

section \<open>The accumulator across invocations\<close>

lemma one_page_run:
  "loop (Suc n) one_page k (JStr seed_url) self =
     \<lparr>promise = Resolved (JArr (results self @ [JStr ''x''])),
      last_promise = Resolved (JArr (results self @ [JStr ''x''])),
      state = self\<lparr>results := results self @ [JStr ''x'']\<rparr>,
      requests = [requestify_get (JStr seed_url)], finished = True\<rparr>"
proof -
  have "one_page k (requestify_get (JStr seed_url)) = Inr (JArr [JStr ''x''])"
    by (simp add: one_page_def)
  from loop_Suc_no_next [of one_page k "JStr seed_url", OF this has_next_array]
  show ?thesis by simp
qed

text \<open>
  C4, as the code has it. The link-following connector keeps one accumulator per
  connector instance. A traversal on a fresh instance ends up with exactly the items it
  fetched itself. A traversal on an instance that has been used before appends its items
  behind those already held, so the accumulator then holds the earlier traversal's items
  followed by its own. Instances share nothing.
\<close>

theorem accumulator_per_instance:
  "results (state (loop n get k url new_connector)) =
     fetched_items get k (requests (loop n get k url new_connector)) \<and>
   results (state (loop n' get' k' url' (state (loop n get k url self)))) =
     results self @ fetched_items get k (requests (loop n get k url self)) @
     fetched_items get' k' (requests (loop n' get' k' url' (state (loop n get k url self))))"
  using loop_results_append [of n get k url new_connector]
    loop_results_append [of n get k url self]
    loop_results_append [of n' get' k' url' "state (loop n get k url self)"]
  by (simp add: new_connector_def)

theorem accumulator_per_instance_witness:
  "results (state (loop 1 one_page 0 (JStr seed_url) new_connector)) = [JStr ''x''] \<and>
   results (state (loop 2 two_pages 1 (JStr ''a'')
      (state (loop 1 one_page 0 (JStr seed_url) new_connector)))) =
     [JStr ''x'', JStr ''x'', JObj [(''next'', JArr [JObj [(''href'', JStr ''b'')]])], JStr ''y'']"
proof -
  have items1: "fetched_items one_page 0
      (requests (loop 1 one_page 0 (JStr seed_url) new_connector)) = [JStr ''x'']"
    by (simp add: one_page_run one_page_def)
  have items2: "fetched_items two_pages 1 (requests (loop 2 two_pages 1 (JStr ''a'')
        (state (loop 1 one_page 0 (JStr seed_url) new_connector)))) =
      [JStr ''x'', JObj [(''next'', JArr [JObj [(''href'', JStr ''b'')]])], JStr ''y'']"
    by (simp add: numeral_2_eq_2 two_pages_run two_pages_def sample_page_a(3))
  show ?thesis
    using accumulator_per_instance [of 1 one_page 0 "JStr seed_url" 2 two_pages 1 "JStr ''a''"
        new_connector]
    unfolding items1 items2 by (simp add: new_connector_def)
qed

text \<open>
  The claim as it is written fails for two invocations on one instance: the second
  traversal fetches one page without items, and its result set holds the item the first
  traversal fetched.
\<close>

theorem shared_instance_counterexample:
  "promise (loop 1 one_page 0 (JStr seed_url) new_connector) = Resolved (JArr [JStr ''x'']) \<and>
   promise (loop 1 empty_pages 1 (JStr ''b'')
      (state (loop 1 one_page 0 (JStr seed_url) new_connector))) = Resolved (JArr [JStr ''x''])"
proof -
  have "empty_pages 1 (requestify_get (JStr ''b'')) = Inr (JArr [])"
    by (simp add: empty_pages_def)
  from loop_Suc_no_next [of empty_pages 1 "JStr ''b''", OF this has_next_array]
  show ?thesis using one_page_run [of 0 0 new_connector] by (simp add: new_connector_def)
qed

section \<open>The entry point\<close>

lemma getPages_paged_cid:
  "getPages_paged n cfg get k page cid m = getPages_paged n cfg get k page cid' m"
proof (induction n arbitrary: k page m)
  case 0
  show ?case by simp
next
  case (Suc n)
  show ?case
  proof (cases get k cfg page rule: paged_cases)
    case (other_body body)
    then show ?thesis
      using Suc.IH [of "Suc k" "page + 1" "m\<lparr>items := body\<rparr>"]
      by (simp add: getPages_paged_next)
  qed (simp_all add: getPages_paged_rejected getPages_paged_null)
qed

lemma loop_no_partial_result:
  "last_promise (loop n get k url self) = Rejected e \<Longrightarrow>
   promise (loop n get k url self) \<noteq> Resolved (JArr xs)"
proof (cases n)
  case 0
  then show ?thesis by simp
next
  case (Suc n')
  assume rej: "last_promise (loop n get k url self) = Rejected e"
  show ?thesis
    by (cases get k url rule: step_cases)
       (use rej Suc in \<open>simp_all add: loop_Suc_ends loop_Suc_follow\<close>)
qed

lemma paged_no_partial_result:
  "last_promise (getPages_paged n cfg get k page cid m) = Rejected e \<Longrightarrow>
   promise (getPages_paged n cfg get k page cid m) \<noteq> Resolved (JArr xs)"
proof (cases n)
  case 0
  then show ?thesis by simp
next
  case (Suc n')
  assume rej: "last_promise (getPages_paged n cfg get k page cid m) = Rejected e"
  show ?thesis
    by (cases get k cfg page rule: paged_cases)
       (use rej Suc in
         \<open>simp_all add: getPages_paged_rejected getPages_paged_null getPages_paged_next\<close>)
qed

lemma unreachable_run:
  "loop (Suc n) unreachable k url self =
     \<lparr>promise = Rejected (RequestFailed ''ETIMEDOUT''),
      last_promise = Rejected (RequestFailed ''ETIMEDOUT''), state = self,
      requests = [requestify_get url], finished = True\<rparr>"
  "getPages_paged (Suc n) cfg unreachable k page cid m =
     \<lparr>promise = Rejected (RequestFailed ''ETIMEDOUT''),
      last_promise = Rejected (RequestFailed ''ETIMEDOUT''), state = m,
      requests = [requestify_get (JStr (page_url cfg page))], finished = True\<rparr>"
  by (simp_all add: loop_Suc_rejected getPages_paged_rejected unreachable_def)

text \<open>
  C2, as the code has it. \<^verbatim>\<open>getPages\<close> takes no seed address from its caller and
  creates no accumulator of its own. The link-following connector always starts at the
  one fixed address and appends what it fetches behind whatever the instance's
  \<^verbatim>\<open>results\<close> array already holds. The page-number connector starts at
  \<^verbatim>\<open>wordpressUrl + '/' + wordpressApiPath + '?page=' + page\<close> for the page number
  it is given, and an invocation whose own fetch brings a \<^verbatim>\<open>null\<close> body fulfils
  its promise with the module-level array.
\<close>

theorem getPages_seed_and_accumulator:
  "take 1 (requests (getPages (Suc n) get k cid self)) =
     [requestify_get (JStr ''http://zuidas.publikaan.nl/wp-json/wp/v2/all?page=0'')] \<and>
   results (state (getPages n get k cid self)) =
     results self @ fetched_items get k (requests (getPages n get k cid self)) \<and>
   take 1 (requests (getPages_paged (Suc n) cfg get k page cid m)) =
     [requestify_get (JStr (wordpressUrl cfg @ ''/'' @ wordpressApiPath cfg @ ''?page='' @
        number_to_string page))] \<and>
   (get k (requestify_get (JStr (page_url cfg page))) = Inr JNull \<longrightarrow>
      promise (getPages_paged (Suc n) cfg get k page cid m) =
        Resolved (JArr (concatenatedResponse m)))"
proof -
  have "take 1 (requests (loop (Suc n) get k (JStr seed_url) self)) =
      [requestify_get (JStr seed_url)]"
    by (cases get k "JStr seed_url" rule: step_cases)
       (simp_all add: loop_Suc_ends loop_Suc_follow)
  then have a: "take 1 (requests (getPages (Suc n) get k cid self)) =
      [requestify_get (JStr ''http://zuidas.publikaan.nl/wp-json/wp/v2/all?page=0'')]"
    by (simp add: getPages_def seed_url_def)
  have b: "results (state (getPages n get k cid self)) =
      results self @ fetched_items get k (requests (getPages n get k cid self))"
    using loop_results_append [of n get k "JStr seed_url" self] by (simp add: getPages_def)
  have "take 1 (requests (getPages_paged (Suc n) cfg get k page cid m)) =
      [requestify_get (JStr (page_url cfg page))]"
    by (cases get k cfg page rule: paged_cases)
       (simp_all add: getPages_paged_rejected getPages_paged_null getPages_paged_next)
  then have c: "take 1 (requests (getPages_paged (Suc n) cfg get k page cid m)) =
      [requestify_get (JStr (wordpressUrl cfg @ ''/'' @ wordpressApiPath cfg @ ''?page='' @
        number_to_string page))]"
    by (simp add: page_url_def)
  have d: "get k (requestify_get (JStr (page_url cfg page))) = Inr JNull \<longrightarrow>
      promise (getPages_paged (Suc n) cfg get k page cid m) =
        Resolved (JArr (concatenatedResponse m))"
    by (simp add: getPages_paged_null)
  from a b c d show ?thesis by (intro conjI)
qed

theorem getPages_seed_and_accumulator_witness:
  "results (state (getPages 1 one_page 0 ''cid'' \<lparr>results = [JStr ''old'']\<rparr>)) =
     [JStr ''old'', JStr ''x''] \<and>
   promise (getPages_paged 1 sample_config null_pages 0 0 ''cid'' initial_module) =
     Resolved (JArr [])"
proof -
  have items: "fetched_items one_page 0
      (requests (getPages 1 one_page 0 ''cid'' \<lparr>results = [JStr ''old'']\<rparr>)) = [JStr ''x'']"
    by (simp add: getPages_def one_page_run one_page_def)
  show ?thesis
    using getPages_seed_and_accumulator [of 1 one_page 0 "''cid''" "\<lparr>results = [JStr ''old'']\<rparr>"
        sample_config 0 initial_module]
      getPages_seed_and_accumulator [of 0 null_pages 0 "''cid''" "\<lparr>results = [JStr ''old'']\<rparr>"
        sample_config 0 initial_module]
    unfolding items
    by (simp add: null_pages_def initial_module_def)
qed

text \<open>
  The claim as it is written fails: on an instance that already holds an item, against
  an upstream with a single page, the traversal reaches Done with the old item in front
  of the new one, the one request went to the fixed address, and the promise of
  \<^verbatim>\<open>getPages\<close> is still pending.
\<close>

theorem getPages_never_settles_counterexample:
  "promise (getPages 2 one_page 0 ''cid'' \<lparr>results = [JStr ''old'']\<rparr>) = Pending \<and>
   last_promise (getPages 2 one_page 0 ''cid'' \<lparr>results = [JStr ''old'']\<rparr>) =
     Resolved (JArr [JStr ''old'', JStr ''x'']) \<and>
   finished (getPages 2 one_page 0 ''cid'' \<lparr>results = [JStr ''old'']\<rparr>) \<and>
   requests (getPages 2 one_page 0 ''cid'' \<lparr>results = [JStr ''old'']\<rparr>) =
     [requestify_get (JStr ''http://zuidas.publikaan.nl/wp-json/wp/v2/all?page=0'')]"
  by (simp add: getPages_def numeral_2_eq_2 one_page_run) (simp add: seed_url_def)

section \<open>Errors\<close>

text \<open>
  C6, as the code has it. An error raised by a fetch, or while the next link is read,
  rejects the promise of the invocation in which it occurs with that very error; nothing
  is attached to it, and the correlation id has no influence on what a call does. A run
  in which an invocation was rejected never fulfils its caller's promise with a result
  set.
\<close>

theorem error_rejects_invocation:
  "(get k (requestify_get url) = Inl e \<longrightarrow>
      promise (loop (Suc n) get k url self) = Rejected e) \<and>
   (get k (requestify_get url) = Inr r \<longrightarrow> has_next r = Inl e \<longrightarrow>
      promise (loop (Suc n) get k url self) = Rejected e) \<and>
   (get k (requestify_get url) = Inr r \<longrightarrow> has_next r = Inr True \<longrightarrow> next_href r = Inl e \<longrightarrow>
      promise (loop (Suc n) get k url self) = Rejected e) \<and>
   (get k (requestify_get (JStr (page_url cfg page))) = Inl e \<longrightarrow>
      promise (getPages_paged (Suc n) cfg get k page cid m) = Rejected e) \<and>
   (last_promise (loop n get k url self) = Rejected e \<longrightarrow>
      promise (loop n get k url self) \<noteq> Resolved (JArr xs)) \<and>
   (last_promise (getPages_paged n cfg get k page cid m) = Rejected e \<longrightarrow>
      promise (getPages_paged n cfg get k page cid m) \<noteq> Resolved (JArr xs)) \<and>
   getPages_paged n cfg get k page cid m = getPages_paged n cfg get k page cid' m"
  using loop_no_partial_result [of n get k url self e xs]
    paged_no_partial_result [of n cfg get k page cid m e xs]
    getPages_paged_cid [of n cfg get k page cid m cid']
  by (simp add: loop_Suc_ends getPages_paged_rejected)

theorem error_rejects_invocation_witness:
  "promise (loop 1 unreachable 0 (JStr ''a'') new_connector) =
     Rejected (RequestFailed ''ETIMEDOUT'') \<and>
   promise (loop 1 null_pages 0 (JStr ''a'') new_connector) = Rejected TypeError \<and>
   promise (loop 1 broken_link 0 (JStr ''a'') new_connector) = Rejected TypeError \<and>
   promise (getPages_paged 1 sample_config unreachable 0 0 ''cid'' initial_module) =
     Rejected (RequestFailed ''ETIMEDOUT'') \<and>
   last_promise (loop 1 unreachable 0 (JStr ''a'') new_connector) =
     Rejected (RequestFailed ''ETIMEDOUT'') \<and>
   promise (loop 1 unreachable 0 (JStr ''a'') new_connector) \<noteq> Resolved (JArr []) \<and>
   last_promise (getPages_paged 1 sample_config unreachable 0 0 ''cid'' initial_module) =
     Rejected (RequestFailed ''ETIMEDOUT'') \<and>
   promise (getPages_paged 1 sample_config unreachable 0 0 ''cid'' initial_module) \<noteq>
     Resolved (JArr [])"
proof -
  have l5: "last_promise (loop 1 unreachable 0 (JStr ''a'') new_connector) =
      Rejected (RequestFailed ''ETIMEDOUT'')"
    and l6: "last_promise (getPages_paged 1 sample_config unreachable 0 0 ''cid''
      initial_module) = Rejected (RequestFailed ''ETIMEDOUT'')"
    by (simp_all add: unreachable_run)
  have h2: "has_next JNull = Inl TypeError"
    by (simp add: has_next_def)
  show ?thesis
    using l5 l6
      error_rejects_invocation [where get = unreachable and k = 0 and url = "JStr ''a''"
        and e = "RequestFailed ''ETIMEDOUT''" and n = 0 and self = new_connector
        and cfg = sample_config and page = 0 and cid = "''cid''" and m = initial_module
        and xs = "[]"]
      error_rejects_invocation [where get = null_pages and k = 0 and url = "JStr ''a''"
        and e = TypeError and n = 0 and self = new_connector and r = JNull]
      error_rejects_invocation [where get = broken_link and k = 0 and url = "JStr ''a''"
        and e = TypeError and n = 0 and self = new_connector
        and r = "JObj [(''_links'', JObj [(''next'', JArr [])])]"]
    by (simp add: unreachable_def null_pages_def broken_link_def h2 broken_link_page)
qed

text \<open>
  The claim as it is written fails: when every request times out, the promise of the
  link-following \<^verbatim>\<open>getPages\<close> stays pending although its traversal was rejected;
  and the page-number \<^verbatim>\<open>getPages\<close> rejects with the same bare error for two
  different addresses and two different correlation ids.
\<close>

theorem fetch_error_not_propagated_counterexample:
  "promise (getPages 2 unreachable 0 ''cid'' new_connector) = Pending \<and>
   last_promise (getPages 2 unreachable 0 ''cid'' new_connector) =
     Rejected (RequestFailed ''ETIMEDOUT'') \<and>
   promise (getPages_paged 2 sample_config unreachable 0 0 ''cid-A'' initial_module) =
     Rejected (RequestFailed ''ETIMEDOUT'') \<and>
   promise (getPages_paged 2 sample_config unreachable 0 7 ''cid-B'' initial_module) =
     Rejected (RequestFailed ''ETIMEDOUT'')"
  by (simp add: getPages_def numeral_2_eq_2 unreachable_run)

section \<open>What a traversal hands back\<close>

text \<open>
  C1 asks that the result set handed back holds the items of all visited pages, in
  order. Evaluated on a site of two pages: the page-number connector requests page 0
  (two items) and page 1 (\<^verbatim>\<open>null\<close>), leaves the caller's promise pending, and
  the invocation that reaches the end fulfils its own promise with an empty array, the
  module-level array never having been extended. The link-following connector
  accumulates the three values of its two pages, but the promise of \<^verbatim>\<open>loop\<close> is
  fulfilled with \<^verbatim>\<open>undefined\<close>.
\<close>

theorem paged_run_discards_items:
  "requests (getPages_paged 3 sample_config paged_site 0 0 ''cid'' initial_module) =
     [requestify_get (JStr ''http://wp/api?page=0''),
      requestify_get (JStr ''http://wp/api?page=1'')] \<and>
   finished (getPages_paged 3 sample_config paged_site 0 0 ''cid'' initial_module) \<and>
   promise (getPages_paged 3 sample_config paged_site 0 0 ''cid'' initial_module) = Pending \<and>
   last_promise (getPages_paged 3 sample_config paged_site 0 0 ''cid'' initial_module) =
     Resolved (JArr []) \<and>
   concatenatedResponse
     (state (getPages_paged 3 sample_config paged_site 0 0 ''cid'' initial_module)) = [] \<and>
   promise (loop 2 two_pages 0 (JStr ''a'') new_connector) = Resolved JUndefined \<and>
   results (state (loop 2 two_pages 0 (JStr ''a'') new_connector)) =
     [JStr ''x'', JObj [(''next'', JArr [JObj [(''href'', JStr ''b'')]])], JStr ''y'']"
  unfolding numeral_3_eq_3 numeral_2_eq_2 paged_site_run two_pages_run
  by (simp add: initial_module_def new_connector_def)

section \<open>Saving a page\<close>

text \<open>The \<^verbatim>\<open>try\<close> block fails exactly when one of the three calls it makes fails:
  getting the collection, looking the document up, and the write, which is a replace
  when the document is there and an insert otherwise.\<close>

lemma save_try_Inl_iff:
  "(\<exists>e. save_try f db data dbName = Inl e) \<longleftrightarrow>
   (f GetCollection \<noteq> None \<or> f FindOne \<noteq> None \<or>
    f (if db dbName ''page'' (obj_id data) = None then InsertOne else ReplaceOne) \<noteq> None)"
  by (auto simp: save_try_def getCollection_def findOne_def replaceOne_def insertOne_def
      split: option.splits)

lemma save_try_Inr:
  "save_try f db data dbName = Inr (r, db') \<Longrightarrow>
   update r = (db dbName ''page'' (obj_id data) \<noteq> None) \<and>
   result r = (if db dbName ''page'' (obj_id data) \<noteq> None then ReplaceOneResult 1 0
      else InsertOneResult (obj_id data)) \<and>
   db' = db(dbName := (db dbName)(''page'' := (db dbName ''page'')(obj_id data \<mapsto> data)))"
  by (auto simp: save_try_def getCollection_def findOne_def replaceOne_def insertOne_def
      split: option.splits if_splits)

text \<open>
  C9. \<^verbatim>\<open>save\<close> never rejects: its promise is always fulfilled. When a call it
  makes fails, it is fulfilled with \<^verbatim>\<open>{ result: false, update: false }\<close>, the
  database is left as it was and the failure is logged. When no call fails, it is
  fulfilled with what the \<^verbatim>\<open>try\<close> block produced: the outcome of the write,
  which is not \<^verbatim>\<open>false\<close>, and the update flag.
\<close>

theorem save_never_rejects:
  "(\<exists>r db' lg. save f db data dbName = Resolved (r, db', lg)) \<and>
   (f GetCollection \<noteq> None \<or> f FindOne \<noteq> None \<or>
    f (if db dbName ''page'' (obj_id data) = None then InsertOne else ReplaceOne) \<noteq> None \<longrightarrow>
      save f db data dbName =
        Resolved (\<lparr>result = ResultFalse, update = False\<rparr>, db,
                  [''failed to save item to mongo''])) \<and>
   (f GetCollection = None \<and> f FindOne = None \<and>
    f (if db dbName ''page'' (obj_id data) = None then InsertOne else ReplaceOne) = None \<longrightarrow>
      (\<exists>r db'. save f db data dbName = Resolved (r, db', []) \<and>
         save_try f db data dbName = Inr (r, db') \<and> result r \<noteq> ResultFalse))"
proof (cases "save_try f db data dbName")
  case (Inl e)
  then have "\<exists>e. save_try f db data dbName = Inl e" by blast
  then have "f GetCollection \<noteq> None \<or> f FindOne \<noteq> None \<or>
      f (if db dbName ''page'' (obj_id data) = None then InsertOne else ReplaceOne) \<noteq> None"
    using save_try_Inl_iff [of f db data dbName] by blast
  then show ?thesis using Inl by (auto simp: save_def)
next
  case (Inr p)
  obtain r db' where p: "p = (r, db')" by (cases p)
  from Inr have "\<not> (\<exists>e. save_try f db data dbName = Inl e)" by simp
  then have ok: "\<not> (f GetCollection \<noteq> None \<or> f FindOne \<noteq> None \<or>
      f (if db dbName ''page'' (obj_id data) = None then InsertOne else ReplaceOne) \<noteq> None)"
    using save_try_Inl_iff [of f db data dbName] by blast
  from save_try_Inr [of f db data dbName r db'] Inr p have "result r \<noteq> ResultFalse"
    by (auto split: if_splits)
  then show ?thesis using Inr p ok by (auto simp: save_def)
qed

theorem save_never_rejects_witness:
  "save find_fails stored_db sample_doc2 ''site'' =
     Resolved (\<lparr>result = ResultFalse, update = False\<rparr>, stored_db,
               [''failed to save item to mongo'']) \<and>
   (\<exists>r db'. save no_faults empty_db sample_doc ''site'' = Resolved (r, db', []) \<and>
      result r \<noteq> ResultFalse)"
  using save_never_rejects [of find_fails stored_db sample_doc2 "''site''"]
    save_never_rejects [of no_faults empty_db sample_doc "''site''"]
  by (simp add: find_fails_def no_faults_def) blast

lemma save_success_shape:
  "save f db data dbName = Resolved (r, db', lg) \<Longrightarrow> result r \<noteq> ResultFalse \<Longrightarrow>
   (update r \<longleftrightarrow> obj_id data \<in> dom (db dbName ''page'')) \<and>
   (update r \<longrightarrow> result r = ReplaceOneResult 1 0) \<and>
   (\<not> update r \<longrightarrow> result r = InsertOneResult (obj_id data)) \<and>
   db' = db(dbName := (db dbName)(''page'' := (db dbName ''page'')(obj_id data \<mapsto> data)))"
proof (cases "save_try f db data dbName")
  case (Inl e)
  assume "save f db data dbName = Resolved (r, db', lg)" and "result r \<noteq> ResultFalse"
  with Inl show ?thesis by (auto simp: save_def)
next
  case (Inr p)
  assume s: "save f db data dbName = Resolved (r, db', lg)"
  obtain r0 db0 where p: "p = (r0, db0)" by (cases p)
  with Inr s have "r0 = r" "db0 = db'" by (simp_all add: save_def)
  with Inr p have "save_try f db data dbName = Inr (r, db')" by simp
  from save_try_Inr [OF this] show ?thesis by (auto simp: dom_def)
qed

lemma save_replaces:
  "f GetCollection = None \<Longrightarrow> f FindOne = None \<Longrightarrow> f ReplaceOne = None \<Longrightarrow>
   db dbName ''page'' (obj_id data) \<noteq> None \<Longrightarrow>
   save f db data dbName =
     Resolved (\<lparr>result = ReplaceOneResult 1 0, update = True\<rparr>,
       db(dbName := (db dbName)(''page'' := (db dbName ''page'')(obj_id data \<mapsto> data))), [])"
  by (auto simp: save_def save_try_def getCollection_def findOne_def replaceOne_def)

lemma save_inserts:
  "f GetCollection = None \<Longrightarrow> f FindOne = None \<Longrightarrow> f InsertOne = None \<Longrightarrow>
   db dbName ''page'' (obj_id data) = None \<Longrightarrow>
   save f db data dbName =
     Resolved (\<lparr>result = InsertOneResult (obj_id data), update = False\<rparr>,
       db(dbName := (db dbName)(''page'' := (db dbName ''page'')(obj_id data \<mapsto> data))), [])"
  by (simp add: save_def save_try_def getCollection_def findOne_def insertOne_def)

text \<open>
  C10. When \<^verbatim>\<open>save\<close> succeeds, the update flag is true exactly when a document
  with the same \<^verbatim>\<open>_id\<close> was in the page collection before the call. In that case
  the outcome is that of a replace with one matched document, otherwise that of an
  insert; either way the collection afterwards holds the new document under its
  \<^verbatim>\<open>_id\<close> and is otherwise unchanged. And both ways do succeed: when no call
  fails, a document that is there is replaced with the flag true, and a document that is
  not there is inserted with the flag false.
\<close>

theorem save_update_flag:
  "(save f db data dbName = Resolved (r, db', lg) \<longrightarrow> result r \<noteq> ResultFalse \<longrightarrow>
      (update r \<longleftrightarrow> obj_id data \<in> dom (db dbName ''page'')) \<and>
      (update r \<longrightarrow> result r = ReplaceOneResult 1 0) \<and>
      (\<not> update r \<longrightarrow> result r = InsertOneResult (obj_id data)) \<and>
      db' = db(dbName := (db dbName)(''page'' := (db dbName ''page'')(obj_id data \<mapsto> data)))) \<and>
   (f GetCollection = None \<longrightarrow> f FindOne = None \<longrightarrow> f ReplaceOne = None \<longrightarrow>
    db dbName ''page'' (obj_id data) \<noteq> None \<longrightarrow>
      save f db data dbName =
        Resolved (\<lparr>result = ReplaceOneResult 1 0, update = True\<rparr>,
          db(dbName := (db dbName)(''page'' := (db dbName ''page'')(obj_id data \<mapsto> data))),
          [])) \<and>
   (f GetCollection = None \<longrightarrow> f FindOne = None \<longrightarrow> f InsertOne = None \<longrightarrow>
    db dbName ''page'' (obj_id data) = None \<longrightarrow>
      save f db data dbName =
        Resolved (\<lparr>result = InsertOneResult (obj_id data), update = False\<rparr>,
          db(dbName := (db dbName)(''page'' := (db dbName ''page'')(obj_id data \<mapsto> data))),
          []))"
  using save_success_shape [of f db data dbName r db' lg]
    save_replaces [of f db dbName data] save_inserts [of f db dbName data]
  by blast

theorem save_update_flag_witness:
  "save no_faults stored_db sample_doc2 ''site'' =
     Resolved (\<lparr>result = ReplaceOneResult 1 0, update = True\<rparr>,
       stored_db(''site'' := (stored_db ''site'')
         (''page'' := (stored_db ''site'' ''page'')(''42'' \<mapsto> sample_doc2))), []) \<and>
   obj_id sample_doc2 \<in> dom (stored_db ''site'' ''page'') \<and>
   save no_faults empty_db sample_doc ''site'' =
     Resolved (\<lparr>result = InsertOneResult ''42'', update = False\<rparr>,
       empty_db(''site'' := (empty_db ''site'')
         (''page'' := (empty_db ''site'' ''page'')(''42'' \<mapsto> sample_doc))), []) \<and>
   obj_id sample_doc \<notin> dom (empty_db ''site'' ''page'')"
proof -
  have there: "stored_db ''site'' ''page'' (obj_id sample_doc2) \<noteq> None"
    by (simp add: stored_db_def sample_doc2_def)
  have absent: "empty_db ''site'' ''page'' (obj_id sample_doc) = None"
    by (simp add: empty_db_def)
  have nf: "no_faults GetCollection = None" "no_faults FindOne = None"
    "no_faults ReplaceOne = None" "no_faults InsertOne = None"
    by (simp_all add: no_faults_def)
  note rep = save_update_flag [where f = no_faults and db = stored_db and data = sample_doc2
      and dbName = "''site''"
      and r = "\<lparr>result = ReplaceOneResult 1 0, update = True\<rparr>"
      and db' = "stored_db(''site'' := (stored_db ''site'')
         (''page'' := (stored_db ''site'' ''page'')(obj_id sample_doc2 \<mapsto> sample_doc2)))"
      and lg = "[]"]
  note ins = save_update_flag [where f = no_faults and db = empty_db and data = sample_doc
      and dbName = "''site''"
      and r = "\<lparr>result = InsertOneResult (obj_id sample_doc), update = False\<rparr>"
      and db' = "empty_db(''site'' := (empty_db ''site'')
         (''page'' := (empty_db ''site'' ''page'')(obj_id sample_doc \<mapsto> sample_doc)))"
      and lg = "[]"]
  have a: "save no_faults stored_db sample_doc2 ''site'' =
     Resolved (\<lparr>result = ReplaceOneResult 1 0, update = True\<rparr>,
       stored_db(''site'' := (stored_db ''site'')
         (''page'' := (stored_db ''site'' ''page'')(obj_id sample_doc2 \<mapsto> sample_doc2))), [])"
    using rep nf there by blast
  have b: "save no_faults empty_db sample_doc ''site'' =
     Resolved (\<lparr>result = InsertOneResult (obj_id sample_doc), update = False\<rparr>,
       empty_db(''site'' := (empty_db ''site'')
         (''page'' := (empty_db ''site'' ''page'')(obj_id sample_doc \<mapsto> sample_doc))), [])"
    using ins nf absent by blast
  have c: "obj_id sample_doc2 \<in> dom (stored_db ''site'' ''page'')"
    using rep a by simp
  have d: "obj_id sample_doc \<notin> dom (empty_db ''site'' ''page'')"
    using ins b by simp
  have ids: "obj_id sample_doc2 = ''42''" "obj_id sample_doc = ''42''"
    by (simp_all add: sample_doc_def sample_doc2_def)
  from a b c d show ?thesis by (simp only: ids) simp
qed

end
